theory Spec2Isabelle
  imports Main "HOL-Library.Sublist"
begin

section \<open>oscarapi/middleware.py: header-carried sessions and the API gateway\<close>

subsection \<open>The session header grammar\<close>

text \<open>
  The source compiles one regular expression,
  \<^verbatim>\<open>^SID:(?P<type>(?:ANON|AUTH)):(?P<realm>.*?):(?P<session_id>.+?)(?:[-:][0-9a-fA-F]+){0,2}$\<close>,
  and applies it with \<^verbatim>\<open>match\<close>. The matcher below follows the order in which
  Python's backtracking engine explores that pattern: lazy groups try the shortest
  candidate first, greedy repetitions the longest. Header values are byte strings.
  The dictionary returned by \<^verbatim>\<open>groupdict()\<close> has exactly the three named groups.
\<close>

record session_ref =
  type :: string
  realm :: string
  session_id :: string

text \<open>\<^verbatim>\<open>.\<close> matches every character except the line feed (no DOTALL flag).\<close>

definition dot :: "char \<Rightarrow> bool" where
  "dot c = (c \<noteq> CHR 0x0A)"

text \<open>The character classes \<^verbatim>\<open>[0-9a-fA-F]\<close> and \<^verbatim>\<open>[-:]\<close>.\<close>

definition hexdigit :: "char \<Rightarrow> bool" where
  "hexdigit c = (c \<in> set ''0123456789abcdefABCDEF'')"

definition separator :: "char \<Rightarrow> bool" where
  "separator c = (c = CHR ''-'' \<or> c = CHR '':'')"

text \<open>
  \<^verbatim>\<open>$\<close> without the MULTILINE flag matches at the end of the string and also just
  before a line feed that is the last character of the string.
\<close>

definition at_end :: "string \<Rightarrow> bool" where
  "at_end t = (t = [] \<or> t = [CHR 0x0A])"

text \<open>
  \<^verbatim>\<open>[0-9a-fA-F]+\<close>, greedy: the remainders of the input after one or more hex digits,
  the one after the longest run first.
\<close>

fun hex_plus :: "string \<Rightarrow> string list" where
  "hex_plus [] = []"
| "hex_plus (c # cs) = (if hexdigit c then hex_plus cs @ [cs] else [])"

text \<open>One repetition \<^verbatim>\<open>[-:][0-9a-fA-F]+\<close>: the remainders it can leave.\<close>

definition hex_suffix :: "string \<Rightarrow> string list" where
  "hex_suffix t = (case t of [] \<Rightarrow> [] | c # cs \<Rightarrow> if separator c then hex_plus cs else [])"

text \<open>
  \<^verbatim>\<open>(?:[-:][0-9a-fA-F]+){0,2}$\<close>: the repetition is greedy, so two repetitions are tried
  before one and one before none. It captures nothing, so only success matters.
\<close>

definition suffixes_then_end :: "string \<Rightarrow> bool" where
  "suffixes_then_end t =
     (list_ex (\<lambda>t1. list_ex at_end (hex_suffix t1) \<or> at_end t1) (hex_suffix t) \<or> at_end t)"

text \<open>
  \<^verbatim>\<open>(?P<session_id>.+?)\<close> followed by the rest of the pattern: lazy, so the group takes
  one character and is extended only while the rest of the pattern fails.
\<close>

fun session_id_lazy :: "string \<Rightarrow> string option" where
  "session_id_lazy [] = None"
| "session_id_lazy (c # cs) =
     (if dot c
      then (if suffixes_then_end cs then Some [c]
            else map_option ((#) c) (session_id_lazy cs))
      else None)"

text \<open>
  \<^verbatim>\<open>(?P<realm>.*?):\<close> followed by the rest: lazy, so the empty realm is tried first,
  and the realm grows by one character each time what follows fails.
\<close>

fun realm_lazy :: "string \<Rightarrow> (string \<times> string) option" where
  "realm_lazy [] = None"
| "realm_lazy (c # cs) =
     (case (if c = CHR '':'' then session_id_lazy cs else None) of
        Some sid \<Rightarrow> Some ([], sid)
      | None \<Rightarrow>
          if dot c then map_option (\<lambda>(r, sid). (c # r, sid)) (realm_lazy cs) else None)"

text \<open>
  \<^verbatim>\<open>(?P<type>(?:ANON|AUTH))\<close>: the alternatives start with different text, so at most
  one of them matches and there is nothing to backtrack into.
\<close>

definition match_type :: "string \<Rightarrow> (string \<times> string) option" where
  "match_type t =
     (if take 4 t = ''ANON'' then Some (''ANON'', drop 4 t)
      else if take 4 t = ''AUTH'' then Some (''AUTH'', drop 4 t)
      else None)"

definition HTTP_SESSION_ID_REGEX :: "string \<Rightarrow> session_ref option" where
  "HTTP_SESSION_ID_REGEX s =
     (if take 4 s = ''SID:'' then
        (case match_type (drop 4 s) of
           None \<Rightarrow> None
         | Some (ty, t) \<Rightarrow>
             (case t of
                [] \<Rightarrow> None
              | c # t' \<Rightarrow>
                  if c = CHR '':'' then
                    (case realm_lazy t' of
                       None \<Rightarrow> None
                     | Some (r, sid) \<Rightarrow> Some \<lparr>type = ty, realm = r, session_id = sid\<rparr>)
                  else None))
      else None)"

subsection \<open>Requests, responses and sessions\<close>

record session =
  session_key :: string
  is_new :: bool

text \<open>
  The parts of a Django request the middleware reads and writes. \<open>META\<close> is the header
  dictionary; \<open>session\<close>, \<open>parsed_session_uri\<close> and \<open>csrf_processing_done\<close> are the
  attributes the middleware sets (\<open>None\<close>: the attribute is not set).
\<close>

record request =
  path :: string
  META :: "string \<rightharpoonup> string"
  session :: "session option"
  parsed_session_uri :: "session_ref option"
  csrf_processing_done :: bool

text \<open>\<^verbatim>\<open>parse_session_id\<close>: the header may be absent; otherwise the regex decides.\<close>

definition parse_session_id :: "request \<Rightarrow> session_ref option" where
  "parse_session_id req =
     (case META req ''HTTP_SESSION_ID'' of
        None \<Rightarrow> None
      | Some unparsed_session_id \<Rightarrow> HTTP_SESSION_ID_REGEX unparsed_session_id)"

subsection \<open>Exceptions, responses, effects\<close>

text \<open>
  The exceptions that occur: \<^verbatim>\<open>rest_framework.exceptions.APIException\<close> and its
  subclasses carry a status code and a detail message; Django's
  \<^verbatim>\<open>PermissionDenied\<close> and Python's \<^verbatim>\<open>AssertionError\<close> are not API exceptions.
\<close>

datatype exn =
    APIException nat string
  | PermissionDenied
  | AssertionError string

text \<open>\<^verbatim>\<open>exceptions.NotAcceptable\<close> is the API exception with status code 406.\<close>

definition NotAcceptable :: "string \<Rightarrow> exn" where
  "NotAcceptable detail = APIException 406 detail"

record http_response =
  status_code :: nat
  content :: string
  content_type :: string
  headers :: "string \<rightharpoonup> string"

text \<open>
  What a \<^verbatim>\<open>process_request\<close> hook hands back to Django: \<^verbatim>\<open>None\<close> (the pipeline goes on
  to the next middleware and the view), a response (the pipeline stops and the response
  is sent), or a raised exception.
\<close>

datatype outcome =
    ReturnNone
  | ReturnResponse http_response
  | Raised exn

text \<open>
  Calls that leave the middleware are recorded, in order: a lookup in the session store
  (with its \<^verbatim>\<open>raise_on_create\<close> flag) and a \<^verbatim>\<open>logger.error\<close> line.
\<close>

datatype event =
    GetSession string bool
  | LogError string

record 'st world =
  store :: 'st
  events :: "event list"

text \<open>
  What the module imports and does not define. \<open>api_root\<close> is \<^verbatim>\<open>reverse('api-root')\<close>;
  \<open>get_domain\<close>, \<open>session_id_from_parsed_session_uri\<close> and \<open>get_session\<close> are the
  helpers of \<^verbatim>\<open>oscarapi.utils\<close>; \<open>ApiKey_exists\<close> is the query
  \<^verbatim>\<open>models.ApiKey.objects.filter(key=key).exists()\<close>; the two \<open>super\<close> fields are the
  methods of Django's \<^verbatim>\<open>SessionMiddleware\<close> that the subclass delegates to.
\<close>

record ('st, 'r) collaborators =
  api_root :: string
  get_domain :: "request \<Rightarrow> string"
  session_id_from_parsed_session_uri :: "session_ref \<Rightarrow> string"
  get_session :: "string \<Rightarrow> bool \<Rightarrow> 'st \<Rightarrow> (exn + session) \<times> 'st"
  ApiKey_exists :: "string \<Rightarrow> bool"
  super_process_request :: "request \<Rightarrow> 'st world \<Rightarrow> outcome \<times> request \<times> 'st world"
  super_process_response :: "request \<Rightarrow> http_response \<Rightarrow> 'r"

subsection \<open>The functions of the module\<close>

text \<open>
  \<^verbatim>\<open>start_or_resume\<close>: only the type \<^verbatim>\<open>'ANON'\<close> asks the store not to raise when it has to
  create the session. The store lookup is a parameter; the call is recorded.
\<close>

definition call_get_session ::
  "(string \<Rightarrow> bool \<Rightarrow> 'st \<Rightarrow> ('e + session) \<times> 'st) \<Rightarrow> string \<Rightarrow> bool \<Rightarrow> 'st world
     \<Rightarrow> ('e + session) \<times> 'st world" where
  "call_get_session gs sid raise_on_create w =
     (case gs sid raise_on_create (store w) of
        (res, st') \<Rightarrow>
          (res, \<lparr>store = st', events = events w @ [GetSession sid raise_on_create]\<rparr>))"

definition start_or_resume ::
  "(string \<Rightarrow> bool \<Rightarrow> 'st \<Rightarrow> ('e + session) \<times> 'st) \<Rightarrow> string \<Rightarrow> string \<Rightarrow> 'st world
     \<Rightarrow> ('e + session) \<times> 'st world" where
  "start_or_resume gs sid session_type w =
     (if session_type = ''ANON'' then call_get_session gs sid False w
      else call_get_session gs sid True w)"

text \<open>\<^verbatim>\<open>str.lower\<close> on a byte string: the ASCII capitals are mapped, nothing else.\<close>

definition lower_char :: "char \<Rightarrow> char" where
  "lower_char c =
     (case map_of (zip ''ABCDEFGHIJKLMNOPQRSTUVWXYZ'' ''abcdefghijklmnopqrstuvwxyz'') c of
        None \<Rightarrow> c
      | Some l \<Rightarrow> l)"

definition lower :: "string \<Rightarrow> string" where
  "lower s = map lower_char s"

definition startswith :: "string \<Rightarrow> string \<Rightarrow> bool" where
  "startswith s p = (take (length p) s = p)"

definition is_api_request :: "('st, 'r) collaborators \<Rightarrow> request \<Rightarrow> bool" where
  "is_api_request env req = startswith (lower (path req)) (lower (api_root env))"

text \<open>
  The message of the realm mismatch,
  \<^verbatim>\<open>_('Can not accept cookie with realm %s on realm %s') % (realm, domain)\<close>,
  with \<^verbatim>\<open>ugettext\<close> returning its argument (no translation is active).
\<close>

definition realm_mismatch_detail :: "string \<Rightarrow> string \<Rightarrow> string" where
  "realm_mismatch_detail r domain =
     ''Can not accept cookie with realm '' @ r @ '' on realm '' @ domain"

text \<open>
  The \<^verbatim>\<open>except exceptions.APIException as e\<close> clause: an API exception becomes a response
  with the body \<^verbatim>\<open>'{"reason": "%s"}' % e.detail\<close> and the exception's status code; any
  other exception is not caught.
\<close>

definition reason_body :: "string \<Rightarrow> string" where
  \<open>reason_body detail = ''{"reason": "'' @ detail @ ''"}''\<close>

definition except_APIException :: "exn \<Rightarrow> outcome" where
  "except_APIException e =
     (case e of
        APIException code detail \<Rightarrow>
          ReturnResponse \<lparr>status_code = code, content = reason_body detail,
                          content_type = ''application/json'', headers = Map.empty\<rparr>
      | PermissionDenied \<Rightarrow> Raised e
      | AssertionError m \<Rightarrow> Raised e)"

text \<open>\<^verbatim>\<open>HeaderSessionMiddleware.process_request\<close>.\<close>

definition HeaderSessionMiddleware_process_request ::
  "('st, 'r) collaborators \<Rightarrow> request \<Rightarrow> 'st world \<Rightarrow> outcome \<times> request \<times> 'st world" where
  "HeaderSessionMiddleware_process_request env req w =
     (if is_api_request env req then
        (case parse_session_id req of
           Some parsed \<Rightarrow>
             (let domain = get_domain env req in
              if realm parsed \<noteq> domain then
                (except_APIException (NotAcceptable (realm_mismatch_detail (realm parsed) domain)),
                 req, w)
              else
                (case start_or_resume (get_session env)
                        (session_id_from_parsed_session_uri env parsed) (type parsed) w of
                   (Inl e, w') \<Rightarrow> (except_APIException e, req, w')
                 | (Inr sess, w') \<Rightarrow>
                     (ReturnNone,
                      req\<lparr>session := Some sess, parsed_session_uri := Some parsed,
                          csrf_processing_done := True\<rparr>,
                      w')))
         | None \<Rightarrow> super_process_request env req w)
      else super_process_request env req w)"

text \<open>
  The header value written on the way out,
  \<^verbatim>\<open>'SID:%(type)s:%(realm)s:%(session_id)s' % request.parsed_session_uri\<close>.
\<close>

definition render_session_id :: "session_ref \<Rightarrow> string" where
  "render_session_id parsed =
     ''SID:'' @ type parsed @ '':'' @ realm parsed @ '':'' @ session_id parsed"

text \<open>
  \<^verbatim>\<open>HeaderSessionMiddleware.process_response\<close>, in two steps: the guarded block that
  asserts and sets the header, then the call of the superclass method on the result.
\<close>

definition write_session_header ::
  "('st, 'r) collaborators \<Rightarrow> request \<Rightarrow> http_response \<Rightarrow> exn + http_response" where
  "write_session_header env req response =
     (if is_api_request env req then
        (case session req of
           None \<Rightarrow> Inr response
         | Some sess \<Rightarrow>
             (case parsed_session_uri req of
                None \<Rightarrow> Inr response
              | Some parsed \<Rightarrow>
                  (let key = session_key sess;
                       parsed_session_key = session_id_from_parsed_session_uri env parsed
                   in if key = parsed_session_key
                      then Inr (response\<lparr>headers :=
                                  (headers response)(''Session-Id'' \<mapsto> render_session_id parsed)\<rparr>)
                      else Inl (AssertionError
                                  (key @ '' is not equal to '' @ parsed_session_key)))))
      else Inr response)"

definition HeaderSessionMiddleware_process_response ::
  "('st, 'r) collaborators \<Rightarrow> request \<Rightarrow> http_response \<Rightarrow> exn + 'r" where
  "HeaderSessionMiddleware_process_response env req response =
     (case write_session_header env req response of
        Inl e \<Rightarrow> Inl e
      | Inr response' \<Rightarrow> Inr (super_process_response env req response'))"

text \<open>
  \<^verbatim>\<open>authentication.get_authorization_header\<close>: the Authorization header, or the empty
  string when the request has none.
\<close>

definition get_authorization_header :: "request \<Rightarrow> string" where
  "get_authorization_header req =
     (case META req ''HTTP_AUTHORIZATION'' of None \<Rightarrow> [] | Some auth \<Rightarrow> auth)"

text \<open>\<^verbatim>\<open>ApiGatewayMiddleWare.process_request\<close>.\<close>

definition ApiGatewayMiddleWare_process_request ::
  "('st, 'r) collaborators \<Rightarrow> request \<Rightarrow> 'st world \<Rightarrow> outcome \<times> request \<times> 'st world" where
  "ApiGatewayMiddleWare_process_request env req w =
     (if is_api_request env req then
        (let key = get_authorization_header req in
         if ApiKey_exists env key then (ReturnNone, req, w)
         else (Raised PermissionDenied, req,
               w\<lparr>events := events w @ [LogError ''No credentials provided'']\<rparr>))
      else (ReturnNone, req, w))"

subsection \<open>The helpers of oscarapi.utils, from the specification\<close>

text \<open>
  Modelled from the spec: \<^verbatim>\<open>oscarapi.utils.get_session\<close> is not part of the sources at hand.
  The specification gives the store the interface
  \<^verbatim>\<open>session-store.get(id, createIfAbsent: bool) -> Session | NotFound\<close>: an existing
  session is returned; an absent one is created under the given id when creation is
  allowed, and is the failure \<open>SessionNotFound\<close> otherwise. \<^verbatim>\<open>raise_on_create\<close> is the
  negation of \<^verbatim>\<open>createIfAbsent\<close>.
\<close>

datatype store_failure = SessionNotFound

definition get_session_spec ::
  "string \<Rightarrow> bool \<Rightarrow> (string \<rightharpoonup> session) \<Rightarrow> (store_failure + session) \<times> (string \<rightharpoonup> session)" where
  "get_session_spec sid raise_on_create st =
     (case st sid of
        Some s \<Rightarrow> (Inr s, st)
      | None \<Rightarrow>
          if raise_on_create then (Inl SessionNotFound, st)
          else (Inr \<lparr>session_key = sid, is_new = True\<rparr>,
                st(sid \<mapsto> \<lparr>session_key = sid, is_new = True\<rparr>)))"

text \<open>
  Modelled from the spec: \<^verbatim>\<open>oscarapi.utils.session_id_from_parsed_session_uri\<close> is not part
  of the sources at hand. The specification compares the session's key with the
  \<^verbatim>\<open>sessionId\<close> of the reference (\<^verbatim>\<open>session.key == ref.sessionId\<close>), so the helper
  returns that field.
\<close>

definition session_id_from_parsed_session_uri_spec :: "session_ref \<Rightarrow> string" where
  "session_id_from_parsed_session_uri_spec parsed = session_id parsed"

subsection \<open>Notions used to state the properties\<close>

text \<open>A suffix segment: a separator followed by one or more hex digits.\<close>

definition hex_segment :: "string \<Rightarrow> bool" where
  "hex_segment g =
     (case g of [] \<Rightarrow> False | c # h \<Rightarrow> separator c \<and> h \<noteq> [] \<and> list_all hexdigit h)"

text \<open>
  A session id from which the pattern can strip: it ends in a suffix segment and has at
  least one character before that segment.
\<close>

definition strippable :: "string \<Rightarrow> bool" where
  "strippable sid =
     (case dropWhile hexdigit (rev sid) of
        [] \<Rightarrow> False
      | c # p \<Rightarrow> separator c \<and> p \<noteq> [] \<and> takeWhile hexdigit (rev sid) \<noteq> [])"

text \<open>The request of the doctests: nothing but the session header.\<close>

definition header_request :: "string \<Rightarrow> request" where
  "header_request s =
     \<lparr>path = [], META = [''HTTP_SESSION_ID'' \<mapsto> s], session = None,
      parsed_session_uri = None, csrf_processing_done = False\<rparr>"

text \<open>
  The grammar in the specification's words:
  \<^verbatim>\<open>SID:<TYPE>:<REALM>:<SESSION_ID>[<SUFFIX>]\<close> with the type \<^verbatim>\<open>ANON\<close> or \<^verbatim>\<open>AUTH\<close>, any
  realm, a session id of at least one character and up to two suffix segments.
\<close>

definition spec_grammar :: "string \<Rightarrow> bool" where
  "spec_grammar s =
     (\<exists>ty r sid gs.
        s = ''SID:'' @ ty @ '':'' @ r @ '':'' @ sid @ concat gs \<and>
        (ty = ''ANON'' \<or> ty = ''AUTH'') \<and> sid \<noteq> [] \<and>
        length gs \<le> 2 \<and> list_all hex_segment gs)"




text \<open>A request as it arrives: a path and headers, none of the attributes set.\<close>

definition fresh_request :: "string \<Rightarrow> (string \<rightharpoonup> string) \<Rightarrow> request" where
  "fresh_request p m =
     \<lparr>path = p, META = m, session = None, parsed_session_uri = None,
      csrf_processing_done = False\<rparr>"

text \<open>
  A concrete environment for examples: the API lives under \<^verbatim>\<open>/api/\<close>, the domain is
  \<^verbatim>\<open>example.com\<close>, the store has every session asked for, one API key is registered, and
  the superclass methods change nothing.
\<close>

definition example_env :: "(unit, http_response) collaborators" where
  "example_env =
     \<lparr>api_root = ''/api/'',
      get_domain = (\<lambda>req. ''example.com''),
      session_id_from_parsed_session_uri = session_id_from_parsed_session_uri_spec,
      get_session = (\<lambda>sid raise_on_create st. (Inr \<lparr>session_key = sid, is_new = False\<rparr>, st)),
      ApiKey_exists = (\<lambda>key. key = ''secret''),
      super_process_request = (\<lambda>req w. (ReturnNone, req, w)),
      super_process_response = (\<lambda>req response. response)\<rparr>"

section \<open>Properties\<close>

subsection \<open>What the suffix part of the pattern accepts\<close>

lemma hex_plus_sound:
  "r \<in> set (hex_plus t) \<Longrightarrow> \<exists>h. h \<noteq> [] \<and> list_all hexdigit h \<and> t = h @ r"
proof (induction t)
  case Nil
  then show ?case by simp
next
  case (Cons c cs)
  from Cons.prems have hc: "hexdigit c" and alt: "r \<in> set (hex_plus cs) \<or> r = cs"
    by (auto split: if_splits)
  from alt show ?case
  proof
    assume "r \<in> set (hex_plus cs)"
    then obtain h where "h \<noteq> []" "list_all hexdigit h" "cs = h @ r"
      using Cons.IH by blast
    with hc have "c # h \<noteq> [] \<and> list_all hexdigit (c # h) \<and> c # cs = (c # h) @ r" by simp
    then show ?thesis by blast
  next
    assume "r = cs"
    with hc have "[c] \<noteq> [] \<and> list_all hexdigit [c] \<and> c # cs = [c] @ r" by simp
    then show ?thesis by blast
  qed
qed

lemma hex_suffix_sound:
  "r \<in> set (hex_suffix t) \<Longrightarrow> \<exists>g. hex_segment g \<and> t = g @ r"
proof -
  assume a: "r \<in> set (hex_suffix t)"
  then obtain c cs where t: "t = c # cs" and sc: "separator c" and r: "r \<in> set (hex_plus cs)"
    by (auto simp: hex_suffix_def split: list.splits if_splits)
  from hex_plus_sound[OF r] obtain h where "h \<noteq> []" "list_all hexdigit h" "cs = h @ r" by blast
  with t sc have "hex_segment (c # h) \<and> t = (c # h) @ r" by (simp add: hex_segment_def)
  then show ?thesis by blast
qed

lemma suffixes_then_end_sound:
  assumes "suffixes_then_end t"
  shows "\<exists>gs e. length gs \<le> 2 \<and> list_all hex_segment gs \<and> at_end e \<and> t = concat gs @ e"
proof -
  from assms consider
      (two) t1 t2 where "t1 \<in> set (hex_suffix t)" "t2 \<in> set (hex_suffix t1)" "at_end t2"
    | (one) t1 where "t1 \<in> set (hex_suffix t)" "at_end t1"
    | (none) "at_end t"
    by (auto simp: suffixes_then_end_def list_ex_iff)
  then show ?thesis
  proof cases
    case two
    from hex_suffix_sound[OF two(1)] obtain g1 where g1: "hex_segment g1" "t = g1 @ t1" by blast
    from hex_suffix_sound[OF two(2)] obtain g2 where g2: "hex_segment g2" "t1 = g2 @ t2" by blast
    have "length [g1, g2] \<le> 2 \<and> list_all hex_segment [g1, g2] \<and> at_end t2 \<and> t = concat [g1, g2] @ t2"
      using g1 g2 two(3) by simp
    then show ?thesis by blast
  next
    case one
    from hex_suffix_sound[OF one(1)] obtain g1 where g1: "hex_segment g1" "t = g1 @ t1" by blast
    have "length [g1] \<le> 2 \<and> list_all hex_segment [g1] \<and> at_end t1 \<and> t = concat [g1] @ t1"
      using g1 one(2) by simp
    then show ?thesis by blast
  next
    case none
    then have "length ([]::string list) \<le> 2 \<and> list_all hex_segment [] \<and> at_end t \<and> t = concat [] @ t"
      by simp
    then show ?thesis by blast
  qed
qed

lemma separator_not_hex: "separator c \<Longrightarrow> \<not> hexdigit c"
  by (auto simp: separator_def hexdigit_def)

lemma strippable_append:
  assumes "hex_segment g" "p \<noteq> []"
  shows "strippable (p @ g)"
proof -
  from assms(1) obtain c h where g: "g = c # h" and sc: "separator c"
    and h: "h \<noteq> []" "list_all hexdigit h"
    by (auto simp: hex_segment_def split: list.splits)
  have all: "\<And>x. x \<in> set (rev h) \<Longrightarrow> hexdigit x" using h(2) by (simp add: list_all_iff)
  have r: "rev (p @ g) = rev h @ (c # rev p)" using g by simp
  have tw: "takeWhile hexdigit (rev (p @ g)) = rev h"
    unfolding r
    using takeWhile_append2[of "rev h" hexdigit "c # rev p", OF all] separator_not_hex[OF sc]
    by simp
  have dw: "dropWhile hexdigit (rev (p @ g)) = c # rev p"
    unfolding r
    using dropWhile_append2[of "rev h" hexdigit "c # rev p", OF all] separator_not_hex[OF sc]
    by simp
  show ?thesis unfolding strippable_def tw dw using sc h(1) assms(2) by simp
qed

lemma strippable_split:
  assumes "strippable sid"
  shows "\<exists>p g. p \<noteq> [] \<and> hex_segment g \<and> sid = p @ g"
proof -
  from assms obtain c p' where dw: "dropWhile hexdigit (rev sid) = c # p'"
    and sc: "separator c" and p': "p' \<noteq> []" and tw: "takeWhile hexdigit (rev sid) \<noteq> []"
    by (auto simp: strippable_def split: list.splits)
  have "rev sid = takeWhile hexdigit (rev sid) @ c # p'"
    using takeWhile_dropWhile_id[of hexdigit "rev sid"] dw by simp
  then have "rev (rev sid) = rev (takeWhile hexdigit (rev sid) @ c # p')" by simp
  then have sid: "sid = rev p' @ c # rev (takeWhile hexdigit (rev sid))" by simp
  have "list_all hexdigit (rev (takeWhile hexdigit (rev sid)))"
    by (auto simp: list_all_iff dest: set_takeWhileD)
  with sc tw have "hex_segment (c # rev (takeWhile hexdigit (rev sid)))"
    by (simp add: hex_segment_def)
  with sid p' show ?thesis by (metis rev_is_Nil_conv)
qed

lemma suffixes_then_end_strippable:
  assumes "suffixes_then_end q" "q \<noteq> []" "CHR 0x0A \<notin> set q" "p \<noteq> []"
  shows "strippable (p @ q)"
proof -
  from suffixes_then_end_sound[OF assms(1)] obtain gs e where
    gs: "length gs \<le> 2" "list_all hex_segment gs" "at_end e" "q = concat gs @ e" by blast
  from gs(3,4) assms(3) have e: "e = []" by (auto simp: at_end_def)
  with gs(4) assms(2) have "gs \<noteq> []" by auto
  then obtain gs' g where sn: "gs = gs' @ [g]" by (meson rev_exhaust)
  with gs(2) have hg: "hex_segment g" by simp
  have "p @ q = (p @ concat gs') @ g" using gs(4) e sn by simp
  then show ?thesis using strippable_append[OF hg, of "p @ concat gs'"] assms(4) by simp
qed

lemma hex_plus_complete:
  "h \<noteq> [] \<Longrightarrow> list_all hexdigit h \<Longrightarrow> r \<in> set (hex_plus (h @ r))"
proof (induction h)
  case Nil
  then show ?case by simp
next
  case (Cons c h)
  then show ?case by (cases "h = []") simp_all
qed

lemma hex_suffix_complete:
  "hex_segment g \<Longrightarrow> r \<in> set (hex_suffix (g @ r))"
  by (cases g) (simp_all add: hex_segment_def hex_suffix_def hex_plus_complete)

lemma suffixes_then_end_complete:
  assumes "length gs \<le> 2" "list_all hex_segment gs" "at_end e"
  shows "suffixes_then_end (concat gs @ e)"
proof -
  from assms(1) consider "gs = []" | g1 where "gs = [g1]" | g1 g2 where "gs = [g1, g2]"
    by (cases gs rule: list.exhaust; cases "tl gs"; cases "tl (tl gs)"; auto)
  then show ?thesis
  proof cases
    case 1
    with assms(3) show ?thesis by (simp add: suffixes_then_end_def)
  next
    case 2
    with assms(2) have "e \<in> set (hex_suffix (g1 @ e))" by (simp add: hex_suffix_complete)
    with 2 assms(3) show ?thesis by (auto simp: suffixes_then_end_def list_ex_iff)
  next
    case 3
    with assms(2) have a: "g2 @ e \<in> set (hex_suffix (g1 @ g2 @ e))"
      and b: "e \<in> set (hex_suffix (g2 @ e))" by (simp_all add: hex_suffix_complete)
    have "list_ex (\<lambda>t1. list_ex at_end (hex_suffix t1) \<or> at_end t1) (hex_suffix (g1 @ g2 @ e))"
      unfolding list_ex_iff using a b assms(3) by blast
    with 3 show ?thesis by (simp add: suffixes_then_end_def)
  qed
qed

subsection \<open>What the lazy groups capture\<close>

lemma session_id_lazy_sound:
  "session_id_lazy t = Some sid \<Longrightarrow>
     \<exists>tail. t = sid @ tail \<and> sid \<noteq> [] \<and> list_all dot sid \<and> suffixes_then_end tail"
proof (induction t arbitrary: sid)
  case Nil
  then show ?case by simp
next
  case (Cons c cs)
  from Cons.prems have dc: "dot c" by (simp split: if_splits)
  show ?case
  proof (cases "suffixes_then_end cs")
    case True
    with Cons.prems dc have "sid = [c]" by simp
    with True dc have "c # cs = sid @ cs \<and> sid \<noteq> [] \<and> list_all dot sid \<and> suffixes_then_end cs"
      by simp
    then show ?thesis by blast
  next
    case False
    with Cons.prems dc obtain sid' where s': "session_id_lazy cs = Some sid'" "sid = c # sid'"
      by auto
    from Cons.IH[OF s'(1)] obtain tail where
      "cs = sid' @ tail" "list_all dot sid'" "suffixes_then_end tail" by blast
    with s'(2) dc have "c # cs = sid @ tail \<and> sid \<noteq> [] \<and> list_all dot sid \<and> suffixes_then_end tail"
      by simp
    then show ?thesis by blast
  qed
qed

lemma session_id_lazy_complete:
  "sid \<noteq> [] \<Longrightarrow> list_all dot sid \<Longrightarrow> suffixes_then_end tail \<Longrightarrow>
   (\<And>p q. p \<noteq> [] \<Longrightarrow> q \<noteq> [] \<Longrightarrow> sid = p @ q \<Longrightarrow> \<not> suffixes_then_end (q @ tail)) \<Longrightarrow>
   session_id_lazy (sid @ tail) = Some sid"
proof (induction sid)
  case Nil
  then show ?case by simp
next
  case (Cons c cs)
  from Cons.prems(2) have dc: "dot c" and dcs: "list_all dot cs" by simp_all
  show ?case
  proof (cases "cs = []")
    case True
    with dc Cons.prems(3) show ?thesis by simp
  next
    case False
    have nf: "\<not> suffixes_then_end (cs @ tail)"
      using Cons.prems(4)[of "[c]" cs] False by simp
    have rec: "\<And>p q. p \<noteq> [] \<Longrightarrow> q \<noteq> [] \<Longrightarrow> cs = p @ q \<Longrightarrow> \<not> suffixes_then_end (q @ tail)"
    proof -
      fix p q :: string
      assume "p \<noteq> []" "q \<noteq> []" "cs = p @ q"
      then show "\<not> suffixes_then_end (q @ tail)"
        using Cons.prems(4)[of "c # p" q] by simp
    qed
    have "session_id_lazy (cs @ tail) = Some cs"
      using Cons.IH[OF False dcs Cons.prems(3) rec] .
    with dc nf show ?thesis by simp
  qed
qed

lemma hexdigit_not_newline: "\<not> hexdigit (CHR 0x0A)"
  by (simp add: hexdigit_def)

lemma separator_not_newline: "\<not> separator (CHR 0x0A)"
  by (simp add: separator_def)

lemma hex_segment_no_newline: "hex_segment g \<Longrightarrow> CHR 0x0A \<notin> set g"
  using hexdigit_not_newline separator_not_newline
  by (cases g) (auto simp: hex_segment_def list_all_iff)

lemma suffixes_then_end_newline:
  assumes "suffixes_then_end t"
  shows "CHR 0x0A \<notin> set (butlast t)"
proof -
  from suffixes_then_end_sound[OF assms] obtain gs e where
    gs: "list_all hex_segment gs" "at_end e" "t = concat gs @ e" by blast
  have c: "CHR 0x0A \<notin> set (concat gs)"
    using gs(1) hex_segment_no_newline by (auto simp: list_all_iff)
  from gs(2) consider "e = []" | "e = [CHR 0x0A]" by (auto simp: at_end_def)
  then show ?thesis
  proof cases
    case 1
    then show ?thesis using c gs(3) by (auto dest: in_set_butlastD)
  next
    case 2
    then have "butlast t = concat gs" using gs(3) by (simp add: butlast_append)
    then show ?thesis using c by simp
  qed
qed

lemma session_id_lazy_newline:
  assumes "session_id_lazy t = Some sid"
  shows "CHR 0x0A \<notin> set (butlast t)"
proof -
  from session_id_lazy_sound[OF assms] obtain tail where
    t: "t = sid @ tail" "list_all dot sid" "suffixes_then_end tail" by blast
  have s: "CHR 0x0A \<notin> set sid" using t(2) by (auto simp: list_all_iff dot_def)
  show ?thesis
    using s suffixes_then_end_newline[OF t(3)] t(1)
    by (auto simp: butlast_append dest: in_set_butlastD)
qed

lemma realm_lazy_extend:
  "realm_lazy (c # cs) = Some (r, sid) \<Longrightarrow> \<not> (c = CHR '':'' \<and> session_id_lazy cs \<noteq> None) \<Longrightarrow>
     \<exists>r'. dot c \<and> realm_lazy cs = Some (r', sid) \<and> r = c # r'"
  by (cases "c = CHR '':''") (auto split: if_splits)

lemma realm_lazy_newline:
  "realm_lazy t = Some (r, sid) \<Longrightarrow> CHR 0x0A \<notin> set (butlast t)"
proof (induction t arbitrary: r)
  case Nil
  then show ?case by simp
next
  case (Cons c cs)
  show ?case
  proof (cases "c = CHR '':'' \<and> session_id_lazy cs \<noteq> None")
    case True
    then obtain s where "session_id_lazy cs = Some s" by auto
    from session_id_lazy_newline[OF this] True show ?thesis by auto
  next
    case False
    from realm_lazy_extend[OF Cons.prems False]
    obtain r' where dc: "dot c" and r': "realm_lazy cs = Some (r', sid)" by blast
    from Cons.IH[OF r'] dc show ?thesis by (auto simp: dot_def)
  qed
qed

lemma session_id_lazy_None:
  "session_id_lazy t = None \<Longrightarrow> t = [] \<or> t = [CHR 0x0A] \<or> CHR 0x0A \<in> set (butlast t)"
proof (induction t)
  case Nil
  then show ?case by simp
next
  case (Cons c cs)
  show ?case
  proof (cases "dot c")
    case False
    then have "c = CHR 0x0A" by (simp add: dot_def)
    then show ?thesis by (cases cs) auto
  next
    case True
    with Cons.prems have ns: "\<not> suffixes_then_end cs" and rec: "session_id_lazy cs = None"
      by (auto split: if_splits)
    from ns have "cs \<noteq> []" "cs \<noteq> [CHR 0x0A]"
      by (auto simp: suffixes_then_end_def at_end_def)
    with Cons.IH[OF rec] show ?thesis by auto
  qed
qed

lemma realm_lazy_after_failed_colon:
  assumes "session_id_lazy cs = None"
  shows "realm_lazy cs = None"
proof (rule ccontr)
  assume "realm_lazy cs \<noteq> None"
  then obtain r sid where rs: "realm_lazy cs = Some (r, sid)" by auto
  from realm_lazy_newline[OF rs] session_id_lazy_None[OF assms]
  have "cs = [] \<or> cs = [CHR 0x0A]" by auto
  with rs show False by (auto simp: dot_def)
qed

lemma realm_lazy_sound:
  "realm_lazy t = Some (r, sid) \<Longrightarrow>
     \<exists>rest. t = r @ CHR '':'' # rest \<and> CHR '':'' \<notin> set r \<and> list_all dot r \<and>
            session_id_lazy rest = Some sid"
proof (induction t arbitrary: r)
  case Nil
  then show ?case by simp
next
  case (Cons c cs)
  show ?case
  proof (cases "c = CHR '':''")
    case True
    show ?thesis
    proof (cases "session_id_lazy cs")
      case None
      from realm_lazy_after_failed_colon[OF None] None True Cons.prems show ?thesis
        by (simp split: if_splits)
    next
      case (Some s)
      with True Cons.prems have "r = []" "sid = s" by simp_all
      with True Some show ?thesis by simp
    qed
  next
    case False
    then have "\<not> (c = CHR '':'' \<and> session_id_lazy cs \<noteq> None)" by simp
    from realm_lazy_extend[OF Cons.prems this]
    obtain r' where dc: "dot c" and r': "realm_lazy cs = Some (r', sid)" "r = c # r'" by blast
    from Cons.IH[OF r'(1)] obtain rest where
      "cs = r' @ CHR '':'' # rest" "CHR '':'' \<notin> set r'" "list_all dot r'" "session_id_lazy rest = Some sid"
      by blast
    with False dc r'(2) have "c # cs = r @ CHR '':'' # rest \<and> CHR '':'' \<notin> set r \<and> list_all dot r \<and>
            session_id_lazy rest = Some sid" by simp
    then show ?thesis by blast
  qed
qed

lemma realm_lazy_complete:
  "CHR '':'' \<notin> set r \<Longrightarrow> list_all dot r \<Longrightarrow> session_id_lazy rest = Some sid \<Longrightarrow>
   realm_lazy (r @ CHR '':'' # rest) = Some (r, sid)"
  by (induction r) auto

subsection \<open>What the whole pattern captures\<close>

lemma match_type_sound:
  "match_type t = Some (ty, t') \<Longrightarrow> (ty = ''ANON'' \<or> ty = ''AUTH'') \<and> t = ty @ t'"
proof -
  assume a: "match_type t = Some (ty, t')"
  then have "(ty = ''ANON'' \<or> ty = ''AUTH'') \<and> take 4 t = ty \<and> t' = drop 4 t"
    by (auto simp: match_type_def split: if_splits)
  then show ?thesis using append_take_drop_id[of 4 t] by metis
qed

lemma match_type_complete:
  "ty = ''ANON'' \<or> ty = ''AUTH'' \<Longrightarrow> match_type (ty @ t) = Some (ty, t)"
  by (auto simp: match_type_def)

lemma regex_sound:
  assumes "HTTP_SESSION_ID_REGEX s = Some ref"
  shows "(type ref = ''ANON'' \<or> type ref = ''AUTH'') \<and>
         CHR '':'' \<notin> set (realm ref) \<and> list_all dot (realm ref) \<and>
         (\<exists>rest. s = ''SID:'' @ type ref @ '':'' @ realm ref @ '':'' @ rest \<and>
                 session_id_lazy rest = Some (session_id ref))"
proof -
  from assms have p: "take 4 s = ''SID:''"
    by (simp add: HTTP_SESSION_ID_REGEX_def split: if_splits)
  then have s: "s = ''SID:'' @ drop 4 s" using append_take_drop_id[of 4 s] by metis
  from assms p obtain ty t where mt: "match_type (drop 4 s) = Some (ty, t)"
    by (auto simp: HTTP_SESSION_ID_REGEX_def split: option.splits)
  from assms p mt obtain t' where t: "t = CHR '':'' # t'"
    by (auto simp: HTTP_SESSION_ID_REGEX_def split: list.splits if_splits)
  from assms p mt t obtain r sid where rl: "realm_lazy t' = Some (r, sid)"
    and ref: "ref = \<lparr>type = ty, realm = r, session_id = sid\<rparr>"
    by (auto simp: HTTP_SESSION_ID_REGEX_def split: option.splits)
  from match_type_sound[OF mt] have ty: "ty = ''ANON'' \<or> ty = ''AUTH''" and d: "drop 4 s = ty @ t"
    by simp_all
  from realm_lazy_sound[OF rl] obtain rest where
    rest: "t' = r @ CHR '':'' # rest" "CHR '':'' \<notin> set r" "list_all dot r"
          "session_id_lazy rest = Some sid" by blast
  have "s = ''SID:'' @ ty @ '':'' @ r @ '':'' @ rest"
    using s d t rest(1) by simp
  with ty rest ref show ?thesis by auto
qed

lemma regex_complete:
  assumes "ty = ''ANON'' \<or> ty = ''AUTH''" "CHR '':'' \<notin> set r" "list_all dot r"
    "session_id_lazy rest = Some sid"
  shows "HTTP_SESSION_ID_REGEX (''SID:'' @ ty @ '':'' @ r @ '':'' @ rest) =
           Some \<lparr>type = ty, realm = r, session_id = sid\<rparr>"
proof -
  have "realm_lazy (r @ CHR '':'' # rest) = Some (r, sid)"
    using realm_lazy_complete[OF assms(2,3,4)] .
  moreover have "match_type (ty @ CHR '':'' # r @ CHR '':'' # rest) = Some (ty, CHR '':'' # r @ CHR '':'' # rest)"
    using match_type_complete[OF assms(1)] .
  ultimately show ?thesis
    by (simp add: HTTP_SESSION_ID_REGEX_def)
qed

lemma regex_decompose:
  assumes "HTTP_SESSION_ID_REGEX s = Some ref"
  shows "\<exists>gs e. length gs \<le> 2 \<and> list_all hex_segment gs \<and> at_end e \<and>
                s = render_session_id ref @ concat gs @ e"
proof -
  from regex_sound[OF assms] obtain rest where
    s: "s = ''SID:'' @ type ref @ '':'' @ realm ref @ '':'' @ rest"
    and l: "session_id_lazy rest = Some (session_id ref)" by blast
  from session_id_lazy_sound[OF l] obtain tail where
    tl: "rest = session_id ref @ tail" "suffixes_then_end tail" by blast
  from suffixes_then_end_sound[OF tl(2)] obtain gs e where
    g: "length gs \<le> 2" "list_all hex_segment gs" "at_end e" "tail = concat gs @ e" by blast
  have "s = render_session_id ref @ concat gs @ e"
    using s tl(1) g(4) by (simp add: render_session_id_def)
  with g show ?thesis by blast
qed

lemma session_id_lazy_minimal:
  "session_id_lazy t = Some sid \<Longrightarrow> t = sid @ tail \<Longrightarrow> sid = p @ q \<Longrightarrow> p \<noteq> [] \<Longrightarrow> q \<noteq> [] \<Longrightarrow>
     \<not> suffixes_then_end (q @ tail)"
proof (induction t arbitrary: sid p)
  case Nil
  then show ?case by simp
next
  case (Cons c cs)
  from Cons.prems(1) have dc: "dot c" by (simp split: if_splits)
  show ?case
  proof (cases "suffixes_then_end cs")
    case True
    with Cons.prems(1) dc have "sid = [c]" by simp
    with Cons.prems(3,4,5) show ?thesis by (cases p) auto
  next
    case False
    with Cons.prems(1) dc obtain sid' where s': "session_id_lazy cs = Some sid'" "sid = c # sid'"
      by auto
    from Cons.prems(2) s'(2) have cs: "cs = sid' @ tail" by simp
    from Cons.prems(3,4) s'(2) obtain p' where p': "p = c # p'" "sid' = p' @ q"
      by (cases p) auto
    show ?thesis
    proof (cases "p' = []")
      case True
      with p'(2) cs False show ?thesis by simp
    next
      case np: False
      from Cons.IH[OF s'(1) cs p'(2) np Cons.prems(5)] show ?thesis .
    qed
  qed
qed

lemma session_id_lazy_whole:
  assumes "sid \<noteq> []" "CHR 0x0A \<notin> set sid" "\<not> strippable sid"
  shows "session_id_lazy sid = Some sid"
proof -
  have d: "list_all dot sid" using assms(2) by (auto simp: list_all_iff dot_def)
  have e: "suffixes_then_end []" by (simp add: suffixes_then_end_def at_end_def)
  have n: "\<And>p q. p \<noteq> [] \<Longrightarrow> q \<noteq> [] \<Longrightarrow> sid = p @ q \<Longrightarrow> \<not> suffixes_then_end (q @ [])"
  proof
    fix p q :: string
    assume pq: "p \<noteq> []" "q \<noteq> []" "sid = p @ q" and st: "suffixes_then_end (q @ [])"
    from pq(3) assms(2) have nl: "CHR 0x0A \<notin> set q" by simp
    from st have st': "suffixes_then_end q" by simp
    from suffixes_then_end_strippable[OF st' pq(2) nl pq(1)] pq(3) assms(3)
    show False by simp
  qed
  from session_id_lazy_complete[OF assms(1) d e n] show ?thesis by simp
qed

lemma session_id_lazy_strippable:
  assumes "strippable sid"
  shows "session_id_lazy sid \<noteq> Some sid"
proof
  assume a: "session_id_lazy sid = Some sid"
  from strippable_split[OF assms] obtain p g where
    pg: "p \<noteq> []" "hex_segment g" "sid = p @ g" by blast
  from pg(2) have g: "g \<noteq> []" by (auto simp: hex_segment_def)
  have "suffixes_then_end (concat [g] @ [])"
    by (rule suffixes_then_end_complete) (simp_all add: pg(2) at_end_def)
  then have "suffixes_then_end (g @ [])" by simp
  moreover have "\<not> suffixes_then_end (g @ [])"
    by (rule session_id_lazy_minimal[OF a _ pg(3) pg(1) g]) simp
  ultimately show False by contradiction
qed

lemma regex_assembled:
  assumes "ty = ''ANON'' \<or> ty = ''AUTH''" "CHR '':'' \<notin> set r" "CHR 0x0A \<notin> set r"
    "sid \<noteq> []" "CHR 0x0A \<notin> set sid" "\<not> strippable sid"
  shows "HTTP_SESSION_ID_REGEX (''SID:'' @ ty @ '':'' @ r @ '':'' @ sid) =
           Some \<lparr>type = ty, realm = r, session_id = sid\<rparr>"
proof -
  have d: "list_all dot r" using assms(3) by (auto simp: list_all_iff dot_def)
  from regex_complete[OF assms(1,2) d session_id_lazy_whole[OF assms(4,5,6)]]
  show ?thesis .
qed

lemma regex_maximal:
  assumes "HTTP_SESSION_ID_REGEX s = Some ref"
    "s = render_session_id ref @ concat gs @ e" "length gs < 2" "list_all hex_segment gs" "at_end e"
  shows "\<not> strippable (session_id ref)"
proof
  assume st: "strippable (session_id ref)"
  from strippable_split[OF st] obtain p g where
    pg: "p \<noteq> []" "hex_segment g" "session_id ref = p @ g" by blast
  from pg(2) have g: "g \<noteq> []" by (auto simp: hex_segment_def)
  from regex_sound[OF assms(1)] obtain rest where
    s: "s = ''SID:'' @ type ref @ '':'' @ realm ref @ '':'' @ rest"
    and l: "session_id_lazy rest = Some (session_id ref)" by blast
  from s assms(2) have rest: "rest = session_id ref @ (concat gs @ e)"
    by (simp add: render_session_id_def)
  have "suffixes_then_end (concat (g # gs) @ e)"
    by (rule suffixes_then_end_complete) (use assms(3,4,5) pg(2) in simp_all)
  then have "suffixes_then_end (g @ (concat gs @ e))" by simp
  moreover have "\<not> suffixes_then_end (g @ (concat gs @ e))"
    by (rule session_id_lazy_minimal[OF l rest pg(3) pg(1) g])
  ultimately show False by contradiction
qed

lemma regex_output_fields:
  assumes "HTTP_SESSION_ID_REGEX s = Some ref"
  shows "(type ref = ''ANON'' \<or> type ref = ''AUTH'') \<and> CHR '':'' \<notin> set (realm ref) \<and>
         CHR 0x0A \<notin> set (realm ref) \<and> session_id ref \<noteq> [] \<and> CHR 0x0A \<notin> set (session_id ref)"
proof -
  from regex_sound[OF assms] obtain rest where
    a: "type ref = ''ANON'' \<or> type ref = ''AUTH''" "CHR '':'' \<notin> set (realm ref)"
       "list_all dot (realm ref)" "session_id_lazy rest = Some (session_id ref)" by blast
  from session_id_lazy_sound[OF a(4)] have b: "session_id ref \<noteq> []" "list_all dot (session_id ref)"
    by auto
  from a(3) b(2) have "CHR 0x0A \<notin> set (realm ref)" "CHR 0x0A \<notin> set (session_id ref)"
    by (auto simp: list_all_iff dot_def)
  with a b show ?thesis by simp
qed

subsection \<open>Parsing and rendering\<close>

lemmas regex_eval =
  parse_session_id_def header_request_def HTTP_SESSION_ID_REGEX_def match_type_def
  suffixes_then_end_def hex_suffix_def at_end_def dot_def hexdigit_def separator_def

lemma parse_header_request: "parse_session_id (header_request s) = HTTP_SESSION_ID_REGEX s"
  by (simp add: parse_session_id_def header_request_def)

text \<open>
  Claim C1, as the code has it. One parse strips at most two suffix segments from the
  header value, however many segments the value ends in; besides them only a line feed
  at the very end is dropped. Parsing the rendered result once more gives the same
  reference exactly when the parsed session id is not strippable. When it is strippable,
  the second parse keeps type and realm and cuts one or two further suffix segments off
  the session id.
\<close>

theorem suffix_stripping_bounded:
  assumes "META req ''HTTP_SESSION_ID'' = Some s" "parse_session_id req = Some ref"
  shows "(\<exists>gs e. length gs \<le> 2 \<and> list_all hex_segment gs \<and> at_end e \<and>
                 s = render_session_id ref @ concat gs @ e) \<and>
         (parse_session_id (header_request (render_session_id ref)) = Some ref
            \<longleftrightarrow> \<not> strippable (session_id ref)) \<and>
         (strippable (session_id ref) \<longrightarrow>
            (\<exists>sid' gs. 1 \<le> length gs \<and> length gs \<le> 2 \<and> list_all hex_segment gs \<and>
                session_id ref = sid' @ concat gs \<and>
                parse_session_id (header_request (render_session_id ref)) =
                  Some (ref\<lparr>session_id := sid'\<rparr>)))"
proof -
  from assms have r: "HTTP_SESSION_ID_REGEX s = Some ref" by (simp add: parse_session_id_def)
  from regex_output_fields[OF r] have f:
    "type ref = ''ANON'' \<or> type ref = ''AUTH''" "CHR '':'' \<notin> set (realm ref)"
    "CHR 0x0A \<notin> set (realm ref)" "session_id ref \<noteq> []" "CHR 0x0A \<notin> set (session_id ref)"
    by simp_all
  have d: "list_all dot (realm ref)" using f(3) by (auto simp: list_all_iff dot_def)
  have rr: "render_session_id ref = ''SID:'' @ type ref @ '':'' @ realm ref @ '':'' @ session_id ref"
    by (simp add: render_session_id_def)
  have keep: "HTTP_SESSION_ID_REGEX (render_session_id ref) = Some ref"
    if "\<not> strippable (session_id ref)"
    unfolding rr using regex_assembled[OF f that] by simp
  have "session_id_lazy (session_id ref) \<noteq> None"
  proof
    assume "session_id_lazy (session_id ref) = None"
    from session_id_lazy_None[OF this] f(4,5) show False
      by (auto dest: in_set_butlastD)
  qed
  then obtain sid' where l: "session_id_lazy (session_id ref) = Some sid'" by auto
  have again: "HTTP_SESSION_ID_REGEX (render_session_id ref) = Some (ref\<lparr>session_id := sid'\<rparr>)"
    unfolding rr using regex_complete[OF f(1,2) d l] by simp
  have further: "\<exists>gs. 1 \<le> length gs \<and> length gs \<le> 2 \<and> list_all hex_segment gs \<and>
                session_id ref = sid' @ concat gs" and ne: "sid' \<noteq> session_id ref"
    if st: "strippable (session_id ref)"
  proof -
    from session_id_lazy_strippable[OF st] l show ne: "sid' \<noteq> session_id ref" by auto
    from session_id_lazy_sound[OF l] obtain tail where
      t: "session_id ref = sid' @ tail" "suffixes_then_end tail" by blast
    from suffixes_then_end_sound[OF t(2)] obtain gs e where
      g: "length gs \<le> 2" "list_all hex_segment gs" "at_end e" "tail = concat gs @ e" by blast
    from g(3,4) t(1) f(5) have e: "e = []" by (auto simp: at_end_def)
    from ne t(1) g(4) e have "gs \<noteq> []" by auto
    then have "1 \<le> length gs" by (cases gs) simp_all
    with g(1,2) t(1) g(4) e show "\<exists>gs. 1 \<le> length gs \<and> length gs \<le> 2 \<and> list_all hex_segment gs \<and>
                session_id ref = sid' @ concat gs" by auto
  qed
  have iff: "parse_session_id (header_request (render_session_id ref)) = Some ref
            \<longleftrightarrow> \<not> strippable (session_id ref)"
  proof
    assume p: "parse_session_id (header_request (render_session_id ref)) = Some ref"
    show "\<not> strippable (session_id ref)"
    proof
      assume st: "strippable (session_id ref)"
      from p again have "ref\<lparr>session_id := sid'\<rparr> = ref" by (simp add: parse_header_request)
      then have "session_id (ref\<lparr>session_id := sid'\<rparr>) = session_id ref" by simp
      with ne[OF st] show False by simp
    qed
  next
    assume "\<not> strippable (session_id ref)"
    from keep[OF this] show "parse_session_id (header_request (render_session_id ref)) = Some ref"
      by (simp add: parse_header_request)
  qed
  have third: "strippable (session_id ref) \<longrightarrow>
            (\<exists>sid' gs. 1 \<le> length gs \<and> length gs \<le> 2 \<and> list_all hex_segment gs \<and>
                session_id ref = sid' @ concat gs \<and>
                parse_session_id (header_request (render_session_id ref)) =
                  Some (ref\<lparr>session_id := sid'\<rparr>))"
    using further again by (auto simp: parse_header_request)
  from regex_decompose[OF r] iff third show ?thesis by blast
qed

text \<open>
  C1 at the doctest value with two suffix segments: both are stripped, and the rendered
  result parses to itself. And at a value with four segments: the first parse leaves a
  strippable session id, from which the second parse strips again.
\<close>

theorem suffix_stripping_bounded_witness:
  "(\<exists>gs e. length gs \<le> 2 \<and> list_all hex_segment gs \<and> at_end e \<and>
      ''SID:ANON:example.com:98717-16EF:100'' =
        render_session_id \<lparr>type = ''ANON'', realm = ''example.com'', session_id = ''98717''\<rparr>
          @ concat gs @ e) \<and>
   parse_session_id (header_request (render_session_id
       \<lparr>type = ''ANON'', realm = ''example.com'', session_id = ''98717''\<rparr>)) =
     Some \<lparr>type = ''ANON'', realm = ''example.com'', session_id = ''98717''\<rparr> \<and>
   (\<exists>sid' gs. 1 \<le> length gs \<and> length gs \<le> 2 \<and> list_all hex_segment gs \<and>
      ''a-1-2'' = sid' @ concat gs \<and>
      parse_session_id (header_request (render_session_id
          \<lparr>type = ''ANON'', realm = ''r'', session_id = ''a-1-2''\<rparr>)) =
        Some \<lparr>type = ''ANON'', realm = ''r'', session_id = sid'\<rparr>)"
proof -
  have h1: "META (header_request ''SID:ANON:example.com:98717-16EF:100'') ''HTTP_SESSION_ID'' =
              Some ''SID:ANON:example.com:98717-16EF:100''"
    by (simp add: header_request_def)
  have h2: "parse_session_id (header_request ''SID:ANON:example.com:98717-16EF:100'') =
              Some \<lparr>type = ''ANON'', realm = ''example.com'', session_id = ''98717''\<rparr>"
    by (simp add: regex_eval)
  have h3: "\<not> strippable ''98717''"
    by (simp add: strippable_def hexdigit_def)
  have k1: "META (header_request ''SID:ANON:r:a-1-2-3-4'') ''HTTP_SESSION_ID'' =
              Some ''SID:ANON:r:a-1-2-3-4''"
    by (simp add: header_request_def)
  have k2: "parse_session_id (header_request ''SID:ANON:r:a-1-2-3-4'') =
              Some \<lparr>type = ''ANON'', realm = ''r'', session_id = ''a-1-2''\<rparr>"
    by (simp add: regex_eval)
  have k3: "strippable ''a-1-2''"
    by (simp add: strippable_def hexdigit_def separator_def)
  from suffix_stripping_bounded[OF h1 h2] h3
  have a: "(\<exists>gs e. length gs \<le> 2 \<and> list_all hex_segment gs \<and> at_end e \<and>
      ''SID:ANON:example.com:98717-16EF:100'' =
        render_session_id \<lparr>type = ''ANON'', realm = ''example.com'', session_id = ''98717''\<rparr>
          @ concat gs @ e) \<and>
   parse_session_id (header_request (render_session_id
       \<lparr>type = ''ANON'', realm = ''example.com'', session_id = ''98717''\<rparr>)) =
     Some \<lparr>type = ''ANON'', realm = ''example.com'', session_id = ''98717''\<rparr>"
    by simp
  from suffix_stripping_bounded[OF k1 k2] k3
  have b: "\<exists>sid' gs. 1 \<le> length gs \<and> length gs \<le> 2 \<and> list_all hex_segment gs \<and>
      ''a-1-2'' = sid' @ concat gs \<and>
      parse_session_id (header_request (render_session_id
          \<lparr>type = ''ANON'', realm = ''r'', session_id = ''a-1-2''\<rparr>)) =
        Some \<lparr>type = ''ANON'', realm = ''r'', session_id = sid'\<rparr>"
    by simp
  from a b show ?thesis by blast
qed

text \<open>
  C1 as stated fails on a value with three suffix segments: the first parse leaves the
  session id \<^verbatim>\<open>a-1\<close>, and parsing the rendered result strips again, down to \<^verbatim>\<open>a\<close>.
\<close>

theorem suffix_stripping_not_idempotent:
  "parse_session_id (header_request ''SID:ANON:r:a-1-2-3'') =
     Some \<lparr>type = ''ANON'', realm = ''r'', session_id = ''a-1''\<rparr> \<and>
   render_session_id \<lparr>type = ''ANON'', realm = ''r'', session_id = ''a-1''\<rparr> = ''SID:ANON:r:a-1'' \<and>
   parse_session_id (header_request ''SID:ANON:r:a-1'') =
     Some \<lparr>type = ''ANON'', realm = ''r'', session_id = ''a''\<rparr>"
  by (simp add: regex_eval render_session_id_def)

text \<open>
  Claim C2, for header values that do not end in a line feed. When the parser accepts
  the value, the rendered reference is the value with its last segments cut off: at most
  two of them, and as many as the pattern can strip (both, or so many that the session
  id that remains is not strippable). The doctest value \<^verbatim>\<open>SID:ANON:example.com:987171879-16EF\<close>
  renders as \<^verbatim>\<open>SID:ANON:example.com:987171879\<close>.
\<close>

theorem render_parse_canonical:
  "(META req ''HTTP_SESSION_ID'' = Some s \<and> parse_session_id req = Some ref \<and> last s \<noteq> CHR 0x0A \<longrightarrow>
      (\<exists>gs. length gs \<le> 2 \<and> list_all hex_segment gs \<and> s = render_session_id ref @ concat gs \<and>
            (length gs = 2 \<or> \<not> strippable (session_id ref)))) \<and>
   map_option render_session_id
     (parse_session_id (header_request ''SID:ANON:example.com:987171879-16EF'')) =
     Some ''SID:ANON:example.com:987171879''"
proof (intro conjI impI)
  assume a: "META req ''HTTP_SESSION_ID'' = Some s \<and> parse_session_id req = Some ref \<and> last s \<noteq> CHR 0x0A"
  then have r: "HTTP_SESSION_ID_REGEX s = Some ref" by (auto simp: parse_session_id_def)
  from regex_decompose[OF r] obtain gs e where
    g: "length gs \<le> 2" "list_all hex_segment gs" "at_end e" "s = render_session_id ref @ concat gs @ e"
    by blast
  have e: "e = []"
  proof (rule ccontr)
    assume "e \<noteq> []"
    with g(3) have "e = [CHR 0x0A]" by (simp add: at_end_def)
    with g(4) have "last s = CHR 0x0A" by simp
    with a show False by simp
  qed
  have "length gs = 2 \<or> \<not> strippable (session_id ref)"
  proof (cases "length gs = 2")
    case True
    then show ?thesis by simp
  next
    case False
    with g(1) have "length gs < 2" by simp
    from regex_maximal[OF r g(4) this g(2,3)] show ?thesis by simp
  qed
  with g e show "\<exists>gs. length gs \<le> 2 \<and> list_all hex_segment gs \<and> s = render_session_id ref @ concat gs \<and>
            (length gs = 2 \<or> \<not> strippable (session_id ref))" by auto
next
  show "map_option render_session_id
     (parse_session_id (header_request ''SID:ANON:example.com:987171879-16EF'')) =
     Some ''SID:ANON:example.com:987171879''"
    by (simp add: regex_eval render_session_id_def)
qed

text \<open>
  C2 at the doctest value with one suffix segment.
\<close>

theorem render_parse_canonical_witness:
  "\<exists>gs. length gs \<le> 2 \<and> list_all hex_segment gs \<and>
      ''SID:ANON:example.com:987171879-16EF'' =
        render_session_id \<lparr>type = ''ANON'', realm = ''example.com'', session_id = ''987171879''\<rparr>
          @ concat gs \<and>
      (length gs = 2 \<or>
       \<not> strippable (session_id
            \<lparr>type = ''ANON'', realm = ''example.com'', session_id = ''987171879''\<rparr>))"
proof -
  have h: "META (header_request ''SID:ANON:example.com:987171879-16EF'') ''HTTP_SESSION_ID'' =
              Some ''SID:ANON:example.com:987171879-16EF'' \<and>
           parse_session_id (header_request ''SID:ANON:example.com:987171879-16EF'') =
              Some \<lparr>type = ''ANON'', realm = ''example.com'', session_id = ''987171879''\<rparr> \<and>
           last ''SID:ANON:example.com:987171879-16EF'' \<noteq> CHR 0x0A"
    by (simp add: regex_eval)
  from render_parse_canonical[of "header_request ''SID:ANON:example.com:987171879-16EF''"
      "''SID:ANON:example.com:987171879-16EF''"
      "\<lparr>type = ''ANON'', realm = ''example.com'', session_id = ''987171879''\<rparr>"] h
  show ?thesis by blast
qed

text \<open>
  C2 as stated fails on a value that ends in a line feed: the value is accepted, it ends
  in no suffix segment, and yet the rendered reference is shorter than the value.
\<close>

theorem render_parse_drops_line_feed:
  "map_option render_session_id
     (parse_session_id (header_request (''SID:ANON:a:b'' @ [CHR 0x0A]))) = Some ''SID:ANON:a:b'' \<and>
   \<not> strippable (''SID:ANON:a:b'' @ [CHR 0x0A]) \<and>
   ''SID:ANON:a:b'' \<noteq> ''SID:ANON:a:b'' @ [CHR 0x0A]"
  by (simp add: regex_eval render_session_id_def strippable_def)

lemma regex_in_spec_grammar:
  assumes "HTTP_SESSION_ID_REGEX s = Some ref"
  shows "spec_grammar s \<and> s \<noteq> [] \<and> take 4 s = ''SID:'' \<and>
         (take 9 s = ''SID:ANON:'' \<or> take 9 s = ''SID:AUTH:'') \<and> 3 \<le> count_list s (CHR '':'')"
proof -
  from regex_sound[OF assms] obtain rest where
    ty: "type ref = ''ANON'' \<or> type ref = ''AUTH''"
    and s: "s = ''SID:'' @ type ref @ '':'' @ realm ref @ '':'' @ rest"
    and l: "session_id_lazy rest = Some (session_id ref)" by blast
  from session_id_lazy_sound[OF l] have rest: "rest \<noteq> []" by auto
  have "s = ''SID:'' @ type ref @ '':'' @ realm ref @ '':'' @ rest @ concat [] \<and>
        (type ref = ''ANON'' \<or> type ref = ''AUTH'') \<and> rest \<noteq> [] \<and>
        length ([]::string list) \<le> 2 \<and> list_all hex_segment []"
    using s ty rest by simp
  then have g: "spec_grammar s" unfolding spec_grammar_def by blast
  have t9: "take 9 s = ''SID:ANON:'' \<or> take 9 s = ''SID:AUTH:''"
    using ty s by auto
  have c: "3 \<le> count_list s (CHR '':'')"
    by (subst s) simp
  from g t9 c s show ?thesis by auto
qed

text \<open>
  Claim C3. The parser is a total function into an option: it has no failing branch.
  For an absent header the result is \<open>None\<close>. For a header value the result is \<open>None\<close>
  whenever the value is outside the grammar of the specification, and in particular when
  it is empty, lacks the prefix \<^verbatim>\<open>SID:\<close>, has a type other than \<^verbatim>\<open>ANON\<close> or \<^verbatim>\<open>AUTH\<close>
  (in capitals) after the prefix, or has fewer than three colons.
\<close>

theorem parse_rejects_non_matching:
  "(META req ''HTTP_SESSION_ID'' = None \<longrightarrow> parse_session_id req = None) \<and>
   (META req ''HTTP_SESSION_ID'' = Some s \<and>
    (\<not> spec_grammar s \<or> s = [] \<or> take 4 s \<noteq> ''SID:'' \<or>
     (take 9 s \<noteq> ''SID:ANON:'' \<and> take 9 s \<noteq> ''SID:AUTH:'') \<or>
     count_list s (CHR '':'') < 3) \<longrightarrow>
    parse_session_id req = None)"
proof (intro conjI impI)
  assume "META req ''HTTP_SESSION_ID'' = None"
  then show "parse_session_id req = None" by (simp add: parse_session_id_def)
next
  assume a: "META req ''HTTP_SESSION_ID'' = Some s \<and>
    (\<not> spec_grammar s \<or> s = [] \<or> take 4 s \<noteq> ''SID:'' \<or>
     (take 9 s \<noteq> ''SID:ANON:'' \<and> take 9 s \<noteq> ''SID:AUTH:'') \<or>
     count_list s (CHR '':'') < 3)"
  show "parse_session_id req = None"
  proof (rule ccontr)
    assume "parse_session_id req \<noteq> None"
    then obtain ref where "parse_session_id req = Some ref" by auto
    with a have "HTTP_SESSION_ID_REGEX s = Some ref" by (auto simp: parse_session_id_def)
    from regex_in_spec_grammar[OF this] a show False by auto
  qed
qed

text \<open>
  C3 on a request without the header and on the rejected doctest values.
\<close>

theorem parse_rejects_non_matching_witness:
  "parse_session_id \<lparr>path = [], META = Map.empty, session = None,
                     parsed_session_uri = None, csrf_processing_done = False\<rparr> = None \<and>
   \<not> spec_grammar ''ENTIREGABRBAGE'' \<and>
   parse_session_id (header_request ''ENTIREGABRBAGE'') = None \<and>
   parse_session_id (header_request []) = None \<and>
   parse_session_id (header_request ''SID:BULLSHIT:example.com:987171879'') = None \<and>
   parse_session_id (header_request ''SID:ANON:987171879'') = None"
proof -
  have g: "\<not> spec_grammar ''ENTIREGABRBAGE''" by (simp add: spec_grammar_def)
  have m: "\<And>s. META (header_request s) ''HTTP_SESSION_ID'' = Some s"
    by (simp add: header_request_def)
  have 1: "parse_session_id \<lparr>path = [], META = Map.empty, session = None,
                     parsed_session_uri = None, csrf_processing_done = False\<rparr> = None"
    using parse_rejects_non_matching[of "\<lparr>path = [], META = Map.empty, session = None,
                     parsed_session_uri = None, csrf_processing_done = False\<rparr>"] by simp
  have 2: "parse_session_id (header_request ''ENTIREGABRBAGE'') = None"
    using parse_rejects_non_matching[of "header_request ''ENTIREGABRBAGE''" "''ENTIREGABRBAGE''"] g m
    by blast
  have 3: "parse_session_id (header_request []) = None"
    using parse_rejects_non_matching[of "header_request []" "[]"] m by blast
  have 4: "parse_session_id (header_request ''SID:BULLSHIT:example.com:987171879'') = None"
    using parse_rejects_non_matching[of "header_request ''SID:BULLSHIT:example.com:987171879''"
        "''SID:BULLSHIT:example.com:987171879''"] m
    by simp
  have 5: "parse_session_id (header_request ''SID:ANON:987171879'') = None"
    using parse_rejects_non_matching[of "header_request ''SID:ANON:987171879''"
        "''SID:ANON:987171879''"] m
    by simp
  from g 1 2 3 4 5 show ?thesis by blast
qed

text \<open>
  Claim C4, as the code has it. For a type \<^verbatim>\<open>ANON\<close> or \<^verbatim>\<open>AUTH\<close>, a realm (possibly empty)
  without colon and without line feed, and a non-empty session id without line feed that
  is not strippable (in particular: one that ends in no suffix segment), parsing
  \<^verbatim>\<open>SID:<type>:<realm>:<sessionId>\<close> gives back exactly the three fields.
\<close>

theorem parse_recovers_fields:
  assumes "ty = ''ANON'' \<or> ty = ''AUTH''"
    and "CHR '':'' \<notin> set r" and "CHR 0x0A \<notin> set r"
    and "sid \<noteq> []" and "CHR 0x0A \<notin> set sid" and "\<not> strippable sid"
    and "META req ''HTTP_SESSION_ID'' = Some (''SID:'' @ ty @ '':'' @ r @ '':'' @ sid)"
  shows "parse_session_id req = Some \<lparr>type = ty, realm = r, session_id = sid\<rparr>"
  using regex_assembled[OF assms(1-6)] assms(7) by (simp add: parse_session_id_def)

text \<open>
  C4 on two doctest values, one of them with the empty realm.
\<close>

theorem parse_recovers_fields_witness:
  "parse_session_id (header_request ''SID:ANON:example.com:923-thread1'') =
     Some \<lparr>type = ''ANON'', realm = ''example.com'', session_id = ''923-thread1''\<rparr> \<and>
   parse_session_id (header_request ''SID:AUTH::987171879'') =
     Some \<lparr>type = ''AUTH'', realm = [], session_id = ''987171879''\<rparr>"
proof -
  have a: "\<not> strippable ''923-thread1''" "\<not> strippable ''987171879''"
    by (simp_all add: strippable_def hexdigit_def separator_def)
  have 1: "parse_session_id (header_request ''SID:ANON:example.com:923-thread1'') =
     Some \<lparr>type = ''ANON'', realm = ''example.com'', session_id = ''923-thread1''\<rparr>"
    by (rule parse_recovers_fields) (simp_all add: a header_request_def)
  have 2: "parse_session_id (header_request ''SID:AUTH::987171879'') =
     Some \<lparr>type = ''AUTH'', realm = [], session_id = ''987171879''\<rparr>"
    by (rule parse_recovers_fields) (simp_all add: a header_request_def)
  from 1 2 show ?thesis by simp
qed

text \<open>
  C4 as stated fails for a realm with a colon: the realm group is lazy and ends at the
  first colon, so realm \<^verbatim>\<open>a:b\<close> with session id \<^verbatim>\<open>x\<close> comes back as realm \<^verbatim>\<open>a\<close> with
  session id \<^verbatim>\<open>b:x\<close>. It also fails for a session id that ends in a line feed, which
  comes back without it.
\<close>

theorem parse_splits_realm_at_first_colon:
  "\<not> strippable ''x'' \<and>
   parse_session_id (header_request (''SID:'' @ ''ANON'' @ '':'' @ ''a:b'' @ '':'' @ ''x'')) =
     Some \<lparr>type = ''ANON'', realm = ''a'', session_id = ''b:x''\<rparr> \<and>
   \<not> strippable (''b'' @ [CHR 0x0A]) \<and>
   parse_session_id (header_request (''SID:'' @ ''ANON'' @ '':'' @ ''a'' @ '':'' @ (''b'' @ [CHR 0x0A]))) =
     Some \<lparr>type = ''ANON'', realm = ''a'', session_id = ''b''\<rparr>"
  by (simp add: regex_eval strippable_def)

subsection \<open>Bodies that are JSON\<close>




subsection \<open>The request hook of the session middleware\<close>

lemmas api_eval =
  is_api_request_def startswith_def lower_def lower_char_def example_env_def fresh_request_def

text \<open>
  The mismatch path of \<^verbatim>\<open>process_request\<close>: the exception raised inside the \<^verbatim>\<open>try\<close> block
  is caught at once and turned into the response.
\<close>

lemma process_request_mismatch:
  assumes "is_api_request env req" "parse_session_id req = Some parsed"
    "realm parsed \<noteq> get_domain env req"
  shows "HeaderSessionMiddleware_process_request env req w =
           (ReturnResponse
              \<lparr>status_code = 406,
               content = reason_body (realm_mismatch_detail (realm parsed) (get_domain env req)),
               content_type = ''application/json'', headers = Map.empty\<rparr>,
            req, w)"
  using assms
  by (simp add: HeaderSessionMiddleware_process_request_def except_APIException_def
      NotAcceptable_def)

text \<open>
  The path on which the session is bound, for comparison: the three assignments happen
  only here, after the realm check and after the store has answered.
\<close>

lemma process_request_binds:
  assumes "is_api_request env req" "parse_session_id req = Some parsed"
    "realm parsed = get_domain env req"
    "start_or_resume (get_session env) (session_id_from_parsed_session_uri env parsed)
       (type parsed) w = (Inr sess, w')"
  shows "HeaderSessionMiddleware_process_request env req w =
           (ReturnNone,
            req\<lparr>session := Some sess, parsed_session_uri := Some parsed,
                csrf_processing_done := True\<rparr>, w')"
  using assms by (simp add: HeaderSessionMiddleware_process_request_def)





text \<open>
  Claim C10. On the realm mismatch path the hook answers with the 406 response and hands
  back the request as it received it: \<open>session\<close>, \<open>parsed_session_uri\<close> and
  \<open>csrf_processing_done\<close> are untouched.
\<close>

theorem realm_mismatch_leaves_request:
  assumes "is_api_request env req" "parse_session_id req = Some parsed"
    "realm parsed \<noteq> get_domain env req"
  shows "(case HeaderSessionMiddleware_process_request env req w of
            (out, req', w') \<Rightarrow>
              (\<exists>response. out = ReturnResponse response \<and> status_code response = 406) \<and>
              req' = req \<and> session req' = session req \<and>
              parsed_session_uri req' = parsed_session_uri req \<and>
              csrf_processing_done req' = csrf_processing_done req)"
  using process_request_mismatch[OF assms] by simp

text \<open>
  C10 on a fresh request with a foreign realm: afterwards it still has no session, no
  parsed reference and no CSRF exemption.
\<close>

theorem realm_mismatch_leaves_request_witness:
  "(case HeaderSessionMiddleware_process_request example_env
           (fresh_request ''/api/basket/'' [''HTTP_SESSION_ID'' \<mapsto> ''SID:AUTH:other.com:1''])
           \<lparr>store = (), events = []\<rparr> of
      (out, req', w') \<Rightarrow>
        (\<exists>response. out = ReturnResponse response \<and> status_code response = 406) \<and>
        req' = fresh_request ''/api/basket/'' [''HTTP_SESSION_ID'' \<mapsto> ''SID:AUTH:other.com:1''] \<and>
        session req' = None \<and> parsed_session_uri req' = None \<and> \<not> csrf_processing_done req')"
proof -
  have 1: "is_api_request example_env
             (fresh_request ''/api/basket/'' [''HTTP_SESSION_ID'' \<mapsto> ''SID:AUTH:other.com:1''])"
    by (simp add: api_eval)
  have 2: "parse_session_id
             (fresh_request ''/api/basket/'' [''HTTP_SESSION_ID'' \<mapsto> ''SID:AUTH:other.com:1'']) =
           Some \<lparr>type = ''AUTH'', realm = ''other.com'', session_id = ''1''\<rparr>"
    by (simp add: regex_eval fresh_request_def)
  have 3: "realm \<lparr>type = ''AUTH'', realm = ''other.com'', session_id = ''1''\<rparr> \<noteq>
           get_domain example_env
             (fresh_request ''/api/basket/'' [''HTTP_SESSION_ID'' \<mapsto> ''SID:AUTH:other.com:1''])"
    by (simp add: example_env_def)
  have 4: "session (fresh_request ''/api/basket/'' [''HTTP_SESSION_ID'' \<mapsto> ''SID:AUTH:other.com:1'']) = None"
    "parsed_session_uri (fresh_request ''/api/basket/'' [''HTTP_SESSION_ID'' \<mapsto> ''SID:AUTH:other.com:1'']) = None"
    "\<not> csrf_processing_done (fresh_request ''/api/basket/'' [''HTTP_SESSION_ID'' \<mapsto> ''SID:AUTH:other.com:1''])"
    by (simp_all add: fresh_request_def)
  from realm_mismatch_leaves_request[OF 1 2 3, of "\<lparr>store = (), events = []\<rparr>"] 4
  show ?thesis by (auto split: prod.splits)
qed

text \<open>
  Claim C6, with the store of the specification. When the store has no session under the
  id: for type \<^verbatim>\<open>ANON\<close> the store is called with \<^verbatim>\<open>raise_on_create=False\<close>, creates the
  session, and the session returned has the requested id as its key; for type \<^verbatim>\<open>AUTH\<close>
  (and for every type other than \<^verbatim>\<open>ANON\<close>) the store is called with
  \<^verbatim>\<open>raise_on_create=True\<close>, the result is the failure \<open>SessionNotFound\<close>, and the store is
  unchanged.
\<close>

theorem start_or_resume_by_type:
  assumes "store w sid = None"
  shows "start_or_resume get_session_spec sid ''ANON'' w =
           (Inr \<lparr>session_key = sid, is_new = True\<rparr>,
            \<lparr>store = (store w)(sid \<mapsto> \<lparr>session_key = sid, is_new = True\<rparr>),
             events = events w @ [GetSession sid False]\<rparr>) \<and>
         start_or_resume get_session_spec sid ''AUTH'' w =
           (Inl SessionNotFound,
            \<lparr>store = store w, events = events w @ [GetSession sid True]\<rparr>) \<and>
         (session_type \<noteq> ''ANON'' \<longrightarrow>
            start_or_resume get_session_spec sid session_type w =
              (Inl SessionNotFound,
               \<lparr>store = store w, events = events w @ [GetSession sid True]\<rparr>))"
  using assms
  by (simp add: start_or_resume_def call_get_session_def get_session_spec_def)

text \<open>
  C6 on an empty store, for the ids of scenarios 1 and 2 of the specification.
\<close>

theorem start_or_resume_by_type_witness:
  "start_or_resume get_session_spec ''987171879'' ''ANON'' \<lparr>store = Map.empty, events = []\<rparr> =
     (Inr \<lparr>session_key = ''987171879'', is_new = True\<rparr>,
      \<lparr>store = [''987171879'' \<mapsto> \<lparr>session_key = ''987171879'', is_new = True\<rparr>],
       events = [GetSession ''987171879'' False]\<rparr>) \<and>
   start_or_resume get_session_spec ''XYZ'' ''AUTH'' \<lparr>store = Map.empty, events = []\<rparr> =
     (Inl SessionNotFound, \<lparr>store = Map.empty, events = [GetSession ''XYZ'' True]\<rparr>)"
proof -
  have e: "\<And>k. store \<lparr>store = (Map.empty :: string \<rightharpoonup> session), events = []\<rparr> k = None" by simp
  from start_or_resume_by_type[OF e, of "''987171879''"] start_or_resume_by_type[OF e, of "''XYZ''"]
  show ?thesis by simp
qed

subsection \<open>The response hook and the gateway\<close>

text \<open>
  Claim C7, with the helper of the specification for the session id of a reference.
  Unless the request is in the API namespace and has both a session and a parsed
  reference, the header block leaves the response as it is and the superclass method
  gets that response. Otherwise the session's key is compared with the session id of the
  reference first: if they are equal the header \<^verbatim>\<open>Session-Id\<close> is set to the rendered
  reference, if not the assertion fails and no response is produced.
\<close>

theorem session_header_written_only_when_bound:
  assumes "session_id_from_parsed_session_uri env = session_id_from_parsed_session_uri_spec"
  shows "(\<not> (is_api_request env req \<and> session req \<noteq> None \<and> parsed_session_uri req \<noteq> None) \<longrightarrow>
            write_session_header env req response = Inr response \<and>
            HeaderSessionMiddleware_process_response env req response =
              Inr (super_process_response env req response)) \<and>
         (is_api_request env req \<and> session req = Some sess \<and> parsed_session_uri req = Some parsed \<longrightarrow>
            (session_key sess = session_id parsed \<longrightarrow>
               HeaderSessionMiddleware_process_response env req response =
                 Inr (super_process_response env req
                        (response\<lparr>headers :=
                           (headers response)(''Session-Id'' \<mapsto> render_session_id parsed)\<rparr>))) \<and>
            (session_key sess \<noteq> session_id parsed \<longrightarrow>
               HeaderSessionMiddleware_process_response env req response =
                 Inl (AssertionError
                        (session_key sess @ '' is not equal to '' @ session_id parsed))))"
  using assms
  by (auto simp: HeaderSessionMiddleware_process_response_def write_session_header_def
      session_id_from_parsed_session_uri_spec_def split: option.splits)

text \<open>
  C7 on three requests: nothing bound, a session with the key of the reference, and a
  session with another key.
\<close>

theorem session_header_written_only_when_bound_witness:
  "HeaderSessionMiddleware_process_response example_env
     (fresh_request ''/api/basket/'' Map.empty)
     \<lparr>status_code = 200, content = ''ok'', content_type = ''text/html'', headers = Map.empty\<rparr> =
     Inr \<lparr>status_code = 200, content = ''ok'', content_type = ''text/html'', headers = Map.empty\<rparr> \<and>
   HeaderSessionMiddleware_process_response example_env
     ((fresh_request ''/api/basket/'' Map.empty)
        \<lparr>session := Some \<lparr>session_key = ''987171879'', is_new = True\<rparr>,
         parsed_session_uri :=
           Some \<lparr>type = ''ANON'', realm = ''example.com'', session_id = ''987171879''\<rparr>\<rparr>)
     \<lparr>status_code = 200, content = ''ok'', content_type = ''text/html'', headers = Map.empty\<rparr> =
     Inr \<lparr>status_code = 200, content = ''ok'', content_type = ''text/html'',
          headers = [''Session-Id'' \<mapsto> ''SID:ANON:example.com:987171879'']\<rparr> \<and>
   HeaderSessionMiddleware_process_response example_env
     ((fresh_request ''/api/basket/'' Map.empty)
        \<lparr>session := Some \<lparr>session_key = ''other'', is_new = True\<rparr>,
         parsed_session_uri :=
           Some \<lparr>type = ''ANON'', realm = ''example.com'', session_id = ''987171879''\<rparr>\<rparr>)
     \<lparr>status_code = 200, content = ''ok'', content_type = ''text/html'', headers = Map.empty\<rparr> =
     Inl (AssertionError ''other is not equal to 987171879'')"
proof -
  have h: "session_id_from_parsed_session_uri example_env = session_id_from_parsed_session_uri_spec"
    by (simp add: example_env_def)
  have a: "\<And>r. is_api_request example_env ((fresh_request ''/api/basket/'' Map.empty)
             \<lparr>session := r, parsed_session_uri := p\<rparr>)" for p
    by (simp add: api_eval)
  have a0: "is_api_request example_env (fresh_request ''/api/basket/'' Map.empty)"
    by (simp add: api_eval)
  have s0: "session (fresh_request ''/api/basket/'' Map.empty) = None"
    by (simp add: fresh_request_def)
  have 1: "HeaderSessionMiddleware_process_response example_env
     (fresh_request ''/api/basket/'' Map.empty)
     \<lparr>status_code = 200, content = ''ok'', content_type = ''text/html'', headers = Map.empty\<rparr> =
     Inr \<lparr>status_code = 200, content = ''ok'', content_type = ''text/html'', headers = Map.empty\<rparr>"
    using session_header_written_only_when_bound[OF h,
        where req = "fresh_request ''/api/basket/'' Map.empty"
          and response = "\<lparr>status_code = 200, content = ''ok'', content_type = ''text/html'',
                           headers = Map.empty\<rparr>"]
      s0
    by (simp add: example_env_def)
  have 2: "HeaderSessionMiddleware_process_response example_env
     ((fresh_request ''/api/basket/'' Map.empty)
        \<lparr>session := Some \<lparr>session_key = ''987171879'', is_new = True\<rparr>,
         parsed_session_uri :=
           Some \<lparr>type = ''ANON'', realm = ''example.com'', session_id = ''987171879''\<rparr>\<rparr>)
     \<lparr>status_code = 200, content = ''ok'', content_type = ''text/html'', headers = Map.empty\<rparr> =
     Inr \<lparr>status_code = 200, content = ''ok'', content_type = ''text/html'',
          headers = [''Session-Id'' \<mapsto> ''SID:ANON:example.com:987171879'']\<rparr>"
    using session_header_written_only_when_bound[OF h,
        where req = "(fresh_request ''/api/basket/'' Map.empty)
              \<lparr>session := Some \<lparr>session_key = ''987171879'', is_new = True\<rparr>,
               parsed_session_uri :=
                 Some \<lparr>type = ''ANON'', realm = ''example.com'', session_id = ''987171879''\<rparr>\<rparr>"
          and sess = "\<lparr>session_key = ''987171879'', is_new = True\<rparr>"
          and parsed = "\<lparr>type = ''ANON'', realm = ''example.com'', session_id = ''987171879''\<rparr>"
          and response = "\<lparr>status_code = 200, content = ''ok'', content_type = ''text/html'',
                           headers = Map.empty\<rparr>"]
      a
    by (simp add: example_env_def render_session_id_def)
  have 3: "HeaderSessionMiddleware_process_response example_env
     ((fresh_request ''/api/basket/'' Map.empty)
        \<lparr>session := Some \<lparr>session_key = ''other'', is_new = True\<rparr>,
         parsed_session_uri :=
           Some \<lparr>type = ''ANON'', realm = ''example.com'', session_id = ''987171879''\<rparr>\<rparr>)
     \<lparr>status_code = 200, content = ''ok'', content_type = ''text/html'', headers = Map.empty\<rparr> =
     Inl (AssertionError ''other is not equal to 987171879'')"
    using session_header_written_only_when_bound[OF h,
        where req = "(fresh_request ''/api/basket/'' Map.empty)
              \<lparr>session := Some \<lparr>session_key = ''other'', is_new = True\<rparr>,
               parsed_session_uri :=
                 Some \<lparr>type = ''ANON'', realm = ''example.com'', session_id = ''987171879''\<rparr>\<rparr>"
          and sess = "\<lparr>session_key = ''other'', is_new = True\<rparr>"
          and parsed = "\<lparr>type = ''ANON'', realm = ''example.com'', session_id = ''987171879''\<rparr>"
          and response = "\<lparr>status_code = 200, content = ''ok'', content_type = ''text/html'',
                           headers = Map.empty\<rparr>"]
      a
    by simp
  from 1 2 3 show ?thesis by blast
qed

text \<open>
  Claim C8, as the code has it. The credential is the value of the Authorization header,
  and the empty string when the header is absent. For a request in the API namespace: a
  credential that the registry does not hold is refused with \<open>PermissionDenied\<close>, one
  error line is logged, and request, store and recorded calls are otherwise as before; a
  credential that the registry holds lets the hook return \<^verbatim>\<open>None\<close> with request and world
  unchanged.
\<close>

theorem gateway_checks_credential:
  assumes "is_api_request env req"
  shows "(\<not> ApiKey_exists env (get_authorization_header req) \<longrightarrow>
            ApiGatewayMiddleWare_process_request env req w =
              (Raised PermissionDenied, req,
               w\<lparr>events := events w @ [LogError ''No credentials provided'']\<rparr>)) \<and>
         (ApiKey_exists env (get_authorization_header req) \<longrightarrow>
            ApiGatewayMiddleWare_process_request env req w = (ReturnNone, req, w)) \<and>
         (META req ''HTTP_AUTHORIZATION'' = None \<longrightarrow> get_authorization_header req = []) \<and>
         (\<forall>auth. META req ''HTTP_AUTHORIZATION'' = Some auth \<longrightarrow> get_authorization_header req = auth)"
  using assms
  by (simp add: ApiGatewayMiddleWare_process_request_def get_authorization_header_def)

text \<open>
  C8 with one registered key: no header, a wrong key, the right key.
\<close>

theorem gateway_checks_credential_witness:
  "ApiGatewayMiddleWare_process_request example_env
     (fresh_request ''/api/basket/'' Map.empty) \<lparr>store = (), events = []\<rparr> =
     (Raised PermissionDenied, fresh_request ''/api/basket/'' Map.empty,
      \<lparr>store = (), events = [LogError ''No credentials provided'']\<rparr>) \<and>
   ApiGatewayMiddleWare_process_request example_env
     (fresh_request ''/api/basket/'' [''HTTP_AUTHORIZATION'' \<mapsto> ''guess''])
     \<lparr>store = (), events = []\<rparr> =
     (Raised PermissionDenied, fresh_request ''/api/basket/'' [''HTTP_AUTHORIZATION'' \<mapsto> ''guess''],
      \<lparr>store = (), events = [LogError ''No credentials provided'']\<rparr>) \<and>
   ApiGatewayMiddleWare_process_request example_env
     (fresh_request ''/api/basket/'' [''HTTP_AUTHORIZATION'' \<mapsto> ''secret''])
     \<lparr>store = (), events = []\<rparr> =
     (ReturnNone, fresh_request ''/api/basket/'' [''HTTP_AUTHORIZATION'' \<mapsto> ''secret''],
      \<lparr>store = (), events = []\<rparr>)"
proof -
  have a: "\<And>m. is_api_request example_env (fresh_request ''/api/basket/'' m)"
    by (simp add: api_eval)
  have k: "get_authorization_header (fresh_request ''/api/basket/'' Map.empty) = []"
    "get_authorization_header (fresh_request ''/api/basket/'' [''HTTP_AUTHORIZATION'' \<mapsto> ''guess'']) = ''guess''"
    "get_authorization_header (fresh_request ''/api/basket/'' [''HTTP_AUTHORIZATION'' \<mapsto> ''secret'']) = ''secret''"
    by (simp_all add: get_authorization_header_def fresh_request_def)
  have e: "\<not> ApiKey_exists example_env []" "\<not> ApiKey_exists example_env ''guess''"
    "ApiKey_exists example_env ''secret''"
    by (simp_all add: example_env_def)
  from gateway_checks_credential[OF a, of Map.empty "\<lparr>store = (), events = []\<rparr>"]
    gateway_checks_credential[OF a, of "[''HTTP_AUTHORIZATION'' \<mapsto> ''guess'']" "\<lparr>store = (), events = []\<rparr>"]
    gateway_checks_credential[OF a, of "[''HTTP_AUTHORIZATION'' \<mapsto> ''secret'']" "\<lparr>store = (), events = []\<rparr>"]
    k e
  show ?thesis by simp
qed

text \<open>
  C8 as stated fails when the registry holds the empty key: a request without the
  Authorization header is then looked up as the empty credential and let through.
\<close>

theorem gateway_accepts_absent_credential:
  "META (fresh_request ''/api/basket/'' Map.empty) ''HTTP_AUTHORIZATION'' = None \<and>
   is_api_request (example_env\<lparr>ApiKey_exists := (\<lambda>key. key = [] \<or> key = ''secret'')\<rparr>)
     (fresh_request ''/api/basket/'' Map.empty) \<and>
   ApiGatewayMiddleWare_process_request
     (example_env\<lparr>ApiKey_exists := (\<lambda>key. key = [] \<or> key = ''secret'')\<rparr>)
     (fresh_request ''/api/basket/'' Map.empty) \<lparr>store = (), events = []\<rparr> =
     (ReturnNone, fresh_request ''/api/basket/'' Map.empty, \<lparr>store = (), events = []\<rparr>)"
  by (simp add: ApiGatewayMiddleWare_process_request_def get_authorization_header_def api_eval)

subsection \<open>Error responses\<close>




end
